theory Spec2Isabelle
  imports Main
begin

section \<open>The document parser service (app.py)\<close>

text \<open>
  The service has two handlers: \<open>POST /parse\<close> (\<open>parse_document\<close>) and
  \<open>GET /supported-formats\<close> (\<open>get_supported_formats\<close>). The handlers read the
  module-level dictionary \<open>PARSER_MAP\<close>, create and delete one temporary file, call a
  parser and print warnings. Everything a handler does beyond returning a value is
  state here: the files on disk, the outcomes the operating system will give to the next
  calls of \<open>os.unlink\<close>, and a trace of the observable events.

  Strings are \<open>char list\<close>; file names are taken over ASCII, where Python's
  \<open>str.lower\<close> maps \<open>A\<close>..\<open>Z\<close> to \<open>a\<close>..\<open>z\<close> and leaves every other character
  alone. Paths are read as \<open>pathlib\<close> does on a POSIX host (separator \<open>/\<close>).
\<close>

subsection \<open>Exceptions\<close>

text \<open>
  Every exception that the handler can meet is an instance of Python's \<open>Exception\<close>,
  \<open>HTTPException\<close> included (the framework derives it from \<open>Exception\<close>), so
  an \<open>except Exception\<close> clause catches each value of this type.
  \<open>except PermissionError\<close> catches the second constructor only.
\<close>

datatype exn =
    HTTPException (status_code: nat) (detail: string)
  | PermissionError string
  | OSError string
  | KeyError string
  | Exception string

text \<open>
  \<open>str(e)\<close>. For the built-in exceptions it is the message the exception carries
  (the quoted key for \<open>KeyError\<close>); what the framework's \<open>HTTPException\<close> prints
  depends on the framework's version and is the parameter \<open>hs\<close>.
\<close>

fun str :: "(nat \<Rightarrow> string \<Rightarrow> string) \<Rightarrow> exn \<Rightarrow> string" where
  "str hs (HTTPException s d) = hs s d"
| "str hs (PermissionError m) = m"
| "str hs (OSError m) = m"
| "str hs (KeyError k) = [CHR 0x27] @ k @ [CHR 0x27]"
| "str hs (Exception m) = m"

subsection \<open>The parser registry\<close>

datatype parser_class =
  PdfParser | DocxParser | ExcelParser | PptParser
  | HtmlParser | JsonParser | MarkdownParser | TxtParser

text \<open>A Python dictionary keeps its insertion order: an association list.\<close>

definition PARSER_MAP :: "(string \<times> parser_class) list" where
  "PARSER_MAP =
    [(''.pdf'', PdfParser),
     (''.docx'', DocxParser),
     (''.xlsx'', ExcelParser),
     (''.xls'', ExcelParser),
     (''.pptx'', PptParser),
     (''.ppt'', PptParser),
     (''.html'', HtmlParser),
     (''.json'', JsonParser),
     (''.md'', MarkdownParser),
     (''.txt'', TxtParser)]"

definition keys :: "('k \<times> 'v) list \<Rightarrow> 'k list" where
  "keys d = map fst d"

subsection \<open>Strings and paths\<close>

definition lower_char :: "char \<Rightarrow> char" where
  "lower_char c =
     (case map_of (zip ''ABCDEFGHIJKLMNOPQRSTUVWXYZ'' ''abcdefghijklmnopqrstuvwxyz'') c of
        Some d \<Rightarrow> d
      | None \<Rightarrow> c)"

definition lower :: "string \<Rightarrow> string" where
  "lower s = map lower_char s"

text \<open>\<open>sep.join(xs)\<close>\<close>

fun join :: "string \<Rightarrow> string list \<Rightarrow> string" where
  "join sep [] = []"
| "join sep [x] = x"
| "join sep (x # y # ys) = x @ sep @ join sep (y # ys)"

text \<open>\<open>s.split(c)\<close>: the pieces between the occurrences of \<open>c\<close>, never an empty list.\<close>

fun split_on :: "char \<Rightarrow> string \<Rightarrow> string list" where
  "split_on c [] = [[]]"
| "split_on c (x # xs) =
     (if x = c then [] # split_on c xs
      else (case split_on c xs of
              [] \<Rightarrow> [[x]]
            | y # ys \<Rightarrow> (x # y) # ys))"

text \<open>
  \<open>s.rfind(c)\<close>: the highest index at which \<open>c\<close> occurs, \<open>-1\<close> when it does not occur.
\<close>

fun rfind :: "char \<Rightarrow> string \<Rightarrow> int" where
  "rfind c [] = - 1"
| "rfind c (x # xs) =
     (let r = rfind c xs in
      if 0 \<le> r then r + 1 else if x = c then 0 else - 1)"

text \<open>
  \<open>Path(s).name\<close>: \<open>pathlib\<close> splits at the separator, drops the empty components
  and the components \<open>.\<close>, and the name is the last component left (empty when there is
  none).
\<close>

definition path_parts :: "string \<Rightarrow> string list" where
  "path_parts s = filter (\<lambda>x. x \<noteq> [] \<and> x \<noteq> ''.'') (split_on CHR ''/'' s)"

definition path_name :: "string \<Rightarrow> string" where
  "path_name s = (case rev (path_parts s) of [] \<Rightarrow> [] | x # _ \<Rightarrow> x)"

text \<open>
  \<open>Path(s).suffix\<close>: from the last dot of the name on, when that dot is neither the
  first nor the last character of the name.
\<close>

definition path_suffix :: "string \<Rightarrow> string" where
  "path_suffix s =
     (let name = path_name s; i = rfind CHR ''.'' name in
      if 0 < i \<and> i < int (length name) - 1 then drop (nat i) name else [])"

text \<open>Line 58: \<open>Path(file.filename).suffix.lower()\<close>.\<close>

definition derive_suffix :: "string \<Rightarrow> string" where
  "derive_suffix filename = lower (path_suffix filename)"

subsection \<open>The state: registry, files, pending unlink outcomes, trace\<close>

text \<open>
  What one call of \<open>os.unlink\<close> does is decided outside the program (another handle may
  hold the file): the state carries the outcomes of the calls to come, in order; when
  none is scripted the call removes the file.
\<close>

datatype unlink_outcome = Removed | Locked string | Failed string

datatype event =
    Created string
  | ParserCalled parser_class string
  | Unlink string unlink_outcome
  | Slept nat
  | Printed string

record state =
  parser_map :: "(string \<times> parser_class) list"
  files :: "string \<rightharpoonup> string"
  unlink_script :: "unlink_outcome list"
  trace :: "event list"

definition emit :: "event \<Rightarrow> state \<Rightarrow> state" where
  "emit ev s = s\<lparr>trace := trace s @ [ev]\<rparr>"

text \<open>
  \<open>print(msg)\<close> and \<open>time.sleep\<close> (the duration in milliseconds). Neither is taken
  to fail.
\<close>

definition print :: "string \<Rightarrow> state \<Rightarrow> state" where
  "print msg s = emit (Printed msg) s"

definition time_sleep :: "nat \<Rightarrow> state \<Rightarrow> state" where
  "time_sleep ms s = emit (Slept ms) s"

definition os_path_exists :: "string \<Rightarrow> state \<Rightarrow> bool" where
  "os_path_exists name s = (files s name \<noteq> None)"

text \<open>
  \<open>os.unlink(name)\<close>: takes the next scripted outcome. \<open>PermissionError\<close> is the
  lock/permission class; \<open>Failed\<close> is any other \<open>OSError\<close>.
\<close>

definition os_unlink :: "string \<Rightarrow> state \<Rightarrow> (exn + unit) \<times> state" where
  "os_unlink name s =
     (let out = (case unlink_script s of [] \<Rightarrow> Removed | x # _ \<Rightarrow> x);
          s1 = emit (Unlink name out) (s\<lparr>unlink_script := tl (unlink_script s)\<rparr>)
      in case out of
           Removed \<Rightarrow>
             (if files s name = None then (Inl (OSError ''No such file or directory''), s1)
              else (Inr (), s1\<lparr>files := (files s1)(name := None)\<rparr>))
         | Locked m \<Rightarrow> (Inl (PermissionError m), s1)
         | Failed m \<Rightarrow> (Inl (OSError m), s1))"

text \<open>
  \<open>tempfile.NamedTemporaryFile(delete=False, suffix=suffix)\<close>: the library may fail
  before any file exists (no room, no descriptor left, no writable directory); otherwise
  it tries candidate names until one is unused, creates that file empty and returns its
  handle (here the file's name), and it raises when no candidate is usable. A call that
  raises leaves no file behind.
\<close>

definition NamedTemporaryFile ::
  "exn option \<Rightarrow> string list \<Rightarrow> string \<Rightarrow> state \<Rightarrow> (exn + string) \<times> state" where
  "NamedTemporaryFile fault candidates suffix s =
     (case fault of
        Some e \<Rightarrow> (Inl e, s)
      | None \<Rightarrow>
     (case find (\<lambda>n. files s (n @ suffix) = None) candidates of
        None \<Rightarrow> (Inl (OSError ''No usable temporary file name found''), s)
      | Some n \<Rightarrow>
          (Inr (n @ suffix),
           emit (Created (n @ suffix)) (s\<lparr>files := (files s)(n @ suffix \<mapsto> [])\<rparr>))))"

subsection \<open>The request and its surroundings\<close>

text \<open>
  The uploaded file: its name and what \<open>await file.read()\<close> gives (the bytes, or the
  exception it raises).
\<close>

record upload =
  filename :: string
  read_result :: "exn + string"

text \<open>
  What the handler takes from outside the source file: the framework's \<open>str\<close> of an
  \<open>HTTPException\<close>; the parser classes of \<open>deepdoc.parser\<close> (instantiating the class and
  calling the instance on a path, against the files on disk, gives the content or raises,
  and leaves the files as they are);
  the fault and the candidate names of the temporary-file library; and the faults of
  writing, flushing and closing the temporary file.
\<close>

record 'c env =
  http_exception_str :: "nat \<Rightarrow> string \<Rightarrow> string"
  parser_call :: "parser_class \<Rightarrow> (string \<rightharpoonup> string) \<Rightarrow> string \<Rightarrow> exn + 'c"
  tmp_fault :: "exn option"
  tmp_candidates :: "string list"
  write_fault :: "exn option"
  flush_fault :: "exn option"
  close_fault :: "exn option"

text \<open>The JSON bodies the handlers return or the framework builds.\<close>

datatype 'c body =
    Parsed string 'c
  | Detail string
  | SupportedFormats "string list"

subsection \<open>Deleting the temporary file (lines 82 to 97)\<close>

definition max_retries :: nat where
  "max_retries = 3"

definition could_not_delete :: "string \<Rightarrow> string" where
  "could_not_delete name = ''Warning: Could not delete temporary file: '' @ name"

definition error_while_deleting :: "string \<Rightarrow> string" where
  "error_while_deleting m = ''Warning: Error while deleting temporary file: '' @ m"

text \<open>
  The loop \<open>for i in range(max_retries)\<close>, over the indices still to run. The result is
  \<open>None\<close> when the loop ends (by \<open>break\<close> or by running out of indices) and \<open>Some e\<close>
  when the exception \<open>e\<close>, which \<open>except PermissionError\<close> does not catch, leaves it.
\<close>

fun delete_loop :: "string \<Rightarrow> nat list \<Rightarrow> state \<Rightarrow> exn option \<times> state" where
  "delete_loop name [] s = (None, s)"
| "delete_loop name (i # is) s =
     (case (if os_path_exists name s then os_unlink name s else (Inr (), s)) of
        (Inr _, s1) \<Rightarrow> (None, s1)
      | (Inl (PermissionError m), s1) \<Rightarrow>
          delete_loop name is
            (if i < max_retries - 1 then time_sleep 100 s1
             else print (could_not_delete name) s1)
      | (Inl e, s1) \<Rightarrow> (Some e, s1))"

text \<open>
  The body of \<open>finally\<close>: \<open>if temp_file:\<close> guards the loop, and the \<open>except Exception\<close>
  around the loop prints the second warning.
\<close>

definition finally_block :: "(nat \<Rightarrow> string \<Rightarrow> string) \<Rightarrow> string option \<Rightarrow> state \<Rightarrow> state" where
  "finally_block hs temp_file s =
     (case temp_file of
        None \<Rightarrow> s
      | Some name \<Rightarrow>
          (case delete_loop name [0..<max_retries] s of
             (None, s1) \<Rightarrow> s1
           | (Some e, s1) \<Rightarrow> print (error_while_deleting (str hs e)) s1))"

subsection \<open>The handler of POST /parse\<close>

text \<open>
  Lines 70 to 80, the body of the inner \<open>try\<close>: read the upload, write, flush and close
  the temporary file, instantiate the parser of the suffix and call it on the file's name.
\<close>

definition staged_body :: "'c env \<Rightarrow> upload \<Rightarrow> string \<Rightarrow> string \<Rightarrow> state \<Rightarrow> (exn + 'c body) \<times> state" where
  "staged_body env up suffix name s =
     (case read_result up of
        Inl e \<Rightarrow> (Inl e, s)
      | Inr content \<Rightarrow>
     (case write_fault env of
        Some e \<Rightarrow> (Inl e, s)
      | None \<Rightarrow>
     (let s1 = s\<lparr>files := (files s)(name \<mapsto> content)\<rparr> in
      case flush_fault env of
        Some e \<Rightarrow> (Inl e, s1)
      | None \<Rightarrow>
     (case close_fault env of
        Some e \<Rightarrow> (Inl e, s1)
      | None \<Rightarrow>
     (case map_of (parser_map s1) suffix of
        None \<Rightarrow> (Inl (KeyError suffix), s1)
      | Some cls \<Rightarrow>
          (let s2 = emit (ParserCalled cls name) s1 in
           case parser_call env cls (files s2) name of
             Inl e \<Rightarrow> (Inl e, s2)
           | Inr result \<Rightarrow> (Inr (Parsed ''success'' result), s2)))))))"

definition unsupported_detail :: "string \<Rightarrow> string list \<Rightarrow> string" where
  "unsupported_detail suffix ks =
     ''Unsupported file type: '' @ suffix @ ''. Supported types are: '' @ join '', '' ks"

text \<open>
  Lines 57 to 97, the body of the outer \<open>try\<close>. The temporary file is created before
  the inner \<open>try\<close> is entered, so \<open>finally\<close> runs exactly when the creation returned.
\<close>

definition parse_document_try :: "'c env \<Rightarrow> upload \<Rightarrow> state \<Rightarrow> (exn + 'c body) \<times> state" where
  "parse_document_try env up s =
     (let suffix = derive_suffix (filename up) in
      if map_of (parser_map s) suffix = None
      then (Inl (HTTPException 400 (unsupported_detail suffix (keys (parser_map s)))), s)
      else
        (case NamedTemporaryFile (tmp_fault env) (tmp_candidates env) suffix s of
           (Inl e, s1) \<Rightarrow> (Inl e, s1)
         | (Inr name, s1) \<Rightarrow>
             (case staged_body env up suffix name s1 of
                (r, s2) \<Rightarrow> (r, finally_block (http_exception_str env) (Some name) s2))))"

text \<open>
  Lines 99 to 103: \<open>except Exception as e\<close> around all of it. Whatever was raised
  inside, the 400 of the extension check included, is raised again as a 500.
\<close>

definition except_Exception :: "(nat \<Rightarrow> string \<Rightarrow> string) \<Rightarrow> exn + 'b \<Rightarrow> exn + 'b" where
  "except_Exception hs r =
     (case r of
        Inl e \<Rightarrow> Inl (HTTPException 500 (''Error processing file: '' @ str hs e))
      | Inr b \<Rightarrow> Inr b)"

definition parse_document :: "'c env \<Rightarrow> upload \<Rightarrow> state \<Rightarrow> (exn + 'c body) \<times> state" where
  "parse_document env up s =
     (case parse_document_try env up s of
        (r, s1) \<Rightarrow> (except_Exception (http_exception_str env) r, s1))"

subsection \<open>The handler of GET /supported-formats\<close>

definition get_supported_formats :: "state \<Rightarrow> (exn + 'c body) \<times> state" where
  "get_supported_formats s = (Inr (SupportedFormats (keys (parser_map s))), s)"

subsection \<open>The framework around the handlers\<close>

text \<open>
  What the web framework makes of a handler's outcome: a returned body is sent with
  status 200, a raised \<open>HTTPException\<close> with its status code and its detail, and any other
  exception leaves the handler unhandled.
\<close>

datatype 'c http_response =
    Response nat "'c body"
  | Unhandled exn

fun respond :: "exn + 'c body \<Rightarrow> 'c http_response" where
  "respond (Inr b) = Response 200 b"
| "respond (Inl (HTTPException code d)) = Response code (Detail d)"
| "respond (Inl e) = Unhandled e"

datatype 'c request =
    PostParse "'c env" upload
  | GetSupportedFormats

definition serve :: "'c request \<Rightarrow> state \<Rightarrow> 'c http_response \<times> state" where
  "serve rq s =
     (case (case rq of
              PostParse env up \<Rightarrow> parse_document env up s
            | GetSupportedFormats \<Rightarrow> get_supported_formats s) of
        (r, s1) \<Rightarrow> (respond r, s1))"

text \<open>The service over a sequence of requests: the state after them.\<close>

fun serve_all :: "'c request list \<Rightarrow> state \<Rightarrow> state" where
  "serve_all [] s = s"
| "serve_all (rq # rqs) s = serve_all rqs (snd (serve rq s))"

text \<open>The state at start-up: the registry as the module defines it, nothing else.\<close>

definition initial_state :: state where
  "initial_state =
     \<lparr>parser_map = PARSER_MAP, files = Map.empty, unlink_script = [], trace = []\<rparr>"

subsection \<open>Reading the trace\<close>

text \<open>The events that a step from \<open>s\<close> to \<open>s'\<close> added.\<close>

definition new_events :: "state \<Rightarrow> state \<Rightarrow> event list" where
  "new_events s s' = drop (length (trace s)) (trace s')"

fun created :: "event list \<Rightarrow> string list" where
  "created [] = []"
| "created (Created n # evs) = n # created evs"
| "created (_ # evs) = created evs"

fun parser_calls :: "event list \<Rightarrow> (parser_class \<times> string) list" where
  "parser_calls [] = []"
| "parser_calls (ParserCalled c n # evs) = (c, n) # parser_calls evs"
| "parser_calls (_ # evs) = parser_calls evs"

fun unlink_results :: "event list \<Rightarrow> unlink_outcome list" where
  "unlink_results [] = []"
| "unlink_results (Unlink n out # evs) = out # unlink_results evs"
| "unlink_results (_ # evs) = unlink_results evs"

fun waited :: "event list \<Rightarrow> nat" where
  "waited [] = 0"
| "waited (Slept ms # evs) = ms + waited evs"
| "waited (_ # evs) = waited evs"

fun printed :: "event list \<Rightarrow> string list" where
  "printed [] = []"
| "printed (Printed m # evs) = m # printed evs"
| "printed (_ # evs) = printed evs"

text \<open>
  The retry policy read off a list of unlink outcomes: every attempt that another attempt
  follows was refused for a lock or a permission.
\<close>

fun all_but_last_locked :: "unlink_outcome list \<Rightarrow> bool" where
  "all_but_last_locked [] = True"
| "all_but_last_locked [r] = True"
| "all_but_last_locked (Locked m # r # rs) = all_but_last_locked (r # rs)"
| "all_but_last_locked (_ # r # rs) = False"

text \<open>The attempts and the waits of a trace, in order, the prints left out.\<close>

fun attempts_and_waits :: "event list \<Rightarrow> event list" where
  "attempts_and_waits [] = []"
| "attempts_and_waits (Unlink n r # evs) = Unlink n r # attempts_and_waits evs"
| "attempts_and_waits (Slept ms # evs) = Slept ms # attempts_and_waits evs"
| "attempts_and_waits (_ # evs) = attempts_and_waits evs"

text \<open>
  Attempts and waits alternate: one wait of 100 ms stands between two consecutive
  attempts, and none before the first or after the last.
\<close>

fun spaced :: "event list \<Rightarrow> bool" where
  "spaced [] = True"
| "spaced [Unlink n r] = True"
| "spaced (Unlink n r # Slept ms # Unlink n' r' # evs) =
     (ms = 100 \<and> spaced (Unlink n' r' # evs))"
| "spaced _ = False"

text \<open>One of the two warnings of the deletion code was printed for the file.\<close>

definition deletion_warned :: "string \<Rightarrow> event list \<Rightarrow> bool" where
  "deletion_warned name evs =
     list_ex (\<lambda>m. m = could_not_delete name
                \<or> take (length (error_while_deleting [])) m = error_while_deleting [])
       (printed evs)"


text \<open>Python's \<open>str.upper\<close> over ASCII, to state the case variants of an extension.\<close>

definition upper_char :: "char \<Rightarrow> char" where
  "upper_char c =
     (case map_of (zip ''abcdefghijklmnopqrstuvwxyz'' ''ABCDEFGHIJKLMNOPQRSTUVWXYZ'') c of
        Some d \<Rightarrow> d
      | None \<Rightarrow> c)"

definition upper :: "string \<Rightarrow> string" where
  "upper s = map upper_char s"

subsection \<open>Example surroundings, uploads and states\<close>

text \<open>
  A parser that returns the bytes of the file it is given, a parser that always raises,
  and a temporary-file library that cannot create a file.
\<close>

definition echo_env :: "string env" where
  "echo_env =
     \<lparr>http_exception_str = (\<lambda>code d. d),
      parser_call = (\<lambda>cls fs name.
        case fs name of None \<Rightarrow> Inl (Exception ''no such file'') | Some c \<Rightarrow> Inr c),
      tmp_fault = None, tmp_candidates = [''/tmp/tmpa''],
      write_fault = None, flush_fault = None, close_fault = None\<rparr>"

definition failing_env :: "string env" where
  "failing_env = echo_env\<lparr>parser_call := (\<lambda>cls fs name. Inl (Exception ''bad docx''))\<rparr>"

definition no_tmp_env :: "string env" where
  "no_tmp_env = echo_env\<lparr>tmp_fault := Some (OSError ''Too many open files'')\<rparr>"

definition report_upload :: upload where
  "report_upload = \<lparr>filename = ''report.PDF'', read_result = Inr ''%PDF-1.7''\<rparr>"

definition notes_upload :: upload where
  "notes_upload = \<lparr>filename = ''notes.xyz'', read_result = Inr ''abc''\<rparr>"

definition readme_upload :: upload where
  "readme_upload = \<lparr>filename = ''README'', read_result = Inr ''abc''\<rparr>"

definition broken_upload :: upload where
  "broken_upload = \<lparr>filename = ''broken.docx'', read_result = Inr ''PK''\<rparr>"

text \<open>A state in which the next three calls of \<open>os.unlink\<close> are refused for a lock.\<close>

definition refusing_state :: state where
  "refusing_state =
     initial_state\<lparr>unlink_script := [Locked ''in use'', Locked ''in use'', Locked ''in use'']\<rparr>"

text \<open>The same, with a temporary file already on disk.\<close>

definition locked_state :: state where
  "locked_state = refusing_state\<lparr>files := [''/tmp/tmpa.pdf'' \<mapsto> ''%PDF-1.7'']\<rparr>"

section \<open>Strings and paths: what lower-casing and the suffix do\<close>

lemma lower_char_dot: "lower_char c = CHR ''.'' \<longleftrightarrow> c = CHR ''.''"
  by (auto simp: lower_char_def split: option.splits if_splits)

lemma lower_char_slash: "lower_char c = CHR ''/'' \<longleftrightarrow> c = CHR ''/''"
  by (auto simp: lower_char_def split: option.splits if_splits)

lemma split_on_not_Nil: "split_on c s \<noteq> []"
  by (induction s) (auto split: list.splits)

lemma split_on_set: "p \<in> set (split_on c s) \<Longrightarrow> set p \<subseteq> set s"
proof (induction s arbitrary: p)
  case Nil
  then show ?case by simp
next
  case (Cons x xs)
  show ?case
  proof (cases "x = c")
    case True
    with Cons show ?thesis by auto
  next
    case False
    then obtain y ys where ys: "split_on c xs = y # ys"
      using split_on_not_Nil [of c xs] by (cases "split_on c xs") auto
    with False Cons.prems have "p = x # y \<or> p \<in> set ys" by auto
    then show ?thesis
      using Cons.IH [of y] Cons.IH [of p] ys by auto
  qed
qed

lemma rfind_absent: "c \<notin> set s \<Longrightarrow> rfind c s = - 1"
  by (induction s) (auto simp: Let_def)

lemma path_name_set: "set (path_name s) \<subseteq> set s"
proof (cases "rev (path_parts s)")
  case Nil
  then show ?thesis by (simp add: path_name_def)
next
  case (Cons x xs)
  then have "x \<in> set (path_parts s)"
    by (metis list.set_intros(1) set_rev)
  then have "x \<in> set (split_on CHR ''/'' s)"
    by (simp add: path_parts_def)
  then show ?thesis
    using Cons split_on_set by (simp add: path_name_def)
qed

lemma path_suffix_no_dot: "CHR ''.'' \<notin> set s \<Longrightarrow> path_suffix s = []"
proof -
  assume "CHR ''.'' \<notin> set s"
  then have "CHR ''.'' \<notin> set (path_name s)"
    using path_name_set by blast
  then have "rfind CHR ''.'' (path_name s) = - 1"
    by (rule rfind_absent)
  then show ?thesis
    by (simp add: path_suffix_def)
qed

lemma split_on_map:
  assumes "\<And>x. f x = c \<longleftrightarrow> x = c"
  shows "split_on c (map f s) = map (map f) (split_on c s)"
  using assms by (induction s) (auto split: list.splits)

lemma rfind_map:
  assumes "\<And>x. f x = c \<longleftrightarrow> x = c"
  shows "rfind c (map f s) = rfind c s"
  using assms by (induction s) (auto simp: Let_def)

lemma lower_eq_dot: "lower x = ''.'' \<longleftrightarrow> x = ''.''"
  by (cases x) (auto simp: lower_def lower_char_dot)

lemma path_parts_lower: "path_parts (lower s) = map lower (path_parts s)"
proof -
  have "split_on CHR ''/'' (lower s) = map lower (split_on CHR ''/'' s)"
    unfolding lower_def by (rule split_on_map) (rule lower_char_slash)
  moreover have "(\<lambda>x. x \<noteq> [] \<and> x \<noteq> ''.'') \<circ> lower = (\<lambda>x. x \<noteq> [] \<and> x \<noteq> ''.'')"
    using lower_eq_dot by (auto simp: fun_eq_iff lower_def)
  ultimately show ?thesis
    by (simp add: path_parts_def filter_map)
qed

lemma path_name_lower: "path_name (lower s) = lower (path_name s)"
proof -
  have "rev (path_parts (lower s)) = map lower (rev (path_parts s))"
    by (simp add: path_parts_lower rev_map)
  then show ?thesis
    by (cases "rev (path_parts s)") (simp_all add: path_name_def lower_def)
qed

lemma path_suffix_lower: "path_suffix (lower s) = lower (path_suffix s)"
proof -
  have "rfind CHR ''.'' (lower (path_name s)) = rfind CHR ''.'' (path_name s)"
    unfolding lower_def by (rule rfind_map) (rule lower_char_dot)
  moreover have "length (lower (path_name s)) = length (path_name s)"
    by (simp add: lower_def)
  moreover have "drop k (lower (path_name s)) = lower (drop k (path_name s))" for k
    by (simp add: lower_def drop_map)
  moreover have "lower [] = []"
    by (simp add: lower_def)
  ultimately show ?thesis
    by (simp add: path_suffix_def path_name_lower Let_def)
qed

lemma derive_suffix_lower: "derive_suffix s = path_suffix (lower s)"
  by (simp add: derive_suffix_def path_suffix_lower)

lemma split_on_no_sep: "c \<notin> set s \<Longrightarrow> split_on c s = [s]"
  by (induction s) auto

lemma rfind_last: "c \<notin> set x \<Longrightarrow> rfind c (stem @ c # x) = int (length stem)"
  by (induction stem) (auto simp: Let_def rfind_absent)

lemma path_suffix_simple:
  assumes "stem \<noteq> []" "CHR ''/'' \<notin> set stem" "x \<noteq> []" "CHR ''.'' \<notin> set x" "CHR ''/'' \<notin> set x"
  shows "path_suffix (stem @ CHR ''.'' # x) = CHR ''.'' # x"
proof -
  have "CHR ''/'' \<notin> set (stem @ CHR ''.'' # x)"
    using assms by simp
  then have "split_on CHR ''/'' (stem @ CHR ''.'' # x) = [stem @ CHR ''.'' # x]"
    by (rule split_on_no_sep)
  moreover have "stem @ CHR ''.'' # x \<noteq> ''.''"
    using assms by (cases stem) auto
  ultimately have "path_name (stem @ CHR ''.'' # x) = stem @ CHR ''.'' # x"
    by (simp add: path_name_def path_parts_def)
  moreover have "rfind CHR ''.'' (stem @ CHR ''.'' # x) = int (length stem)"
    using assms by (simp add: rfind_last)
  ultimately show ?thesis
    using assms by (simp add: path_suffix_def Let_def)
qed

section \<open>The deletion loop, one iteration at a time\<close>

lemma range_max_retries: "[0..<max_retries] = [0, 1, 2]"
  by (simp add: max_retries_def upt_rec)

lemma delete_loop_absent:
  "files s name = None \<Longrightarrow> delete_loop name (i # is) s = (None, s)"
  by (simp add: os_path_exists_def)

lemma delete_loop_removed:
  assumes "files s name \<noteq> None" "unlink_script s = [] \<or> hd (unlink_script s) = Removed"
  shows "delete_loop name (i # is) s =
    (None, s\<lparr>files := (files s)(name := None), unlink_script := tl (unlink_script s),
             trace := trace s @ [Unlink name Removed]\<rparr>)"
  using assms by (cases "unlink_script s") (auto simp: os_path_exists_def os_unlink_def emit_def)

lemma delete_loop_failed:
  assumes "files s name \<noteq> None" "unlink_script s = Failed m # us"
  shows "delete_loop name (i # is) s =
    (Some (OSError m), s\<lparr>unlink_script := us, trace := trace s @ [Unlink name (Failed m)]\<rparr>)"
  using assms by (simp add: os_path_exists_def os_unlink_def emit_def)

lemma delete_loop_locked:
  assumes "files s name \<noteq> None" "unlink_script s = Locked m # us"
  shows "delete_loop name (i # is) s =
    delete_loop name is
      (s\<lparr>unlink_script := us,
         trace := trace s @ [Unlink name (Locked m),
           if i < max_retries - 1 then Slept 100 else Printed (could_not_delete name)]\<rparr>)"
  using assms by (simp add: os_path_exists_def os_unlink_def emit_def time_sleep_def print_def)

lemma finally_block_unfold:
  "finally_block hs (Some name) s =
     (case delete_loop name [0, 1, 2] s of
        (None, s1) \<Rightarrow> s1
      | (Some e, s1) \<Rightarrow> print (error_while_deleting (str hs e)) s1)"
  by (simp add: finally_block_def range_max_retries del: delete_loop.simps(2))

lemma finally_block_cases [consumes 0, case_names absent removed failed locked_removed
    locked_failed locked2_removed locked2_failed locked3]:
  obtains
    (absent) "files s name = None" "finally_block hs (Some name) s = s"
  | (removed) "files s name \<noteq> None"
      "finally_block hs (Some name) s =
         s\<lparr>files := (files s)(name := None), unlink_script := tl (unlink_script s),
           trace := trace s @ [Unlink name Removed]\<rparr>"
  | (failed) m us where "files s name \<noteq> None" "unlink_script s = Failed m # us"
      "finally_block hs (Some name) s =
         s\<lparr>unlink_script := us,
           trace := trace s @ [Unlink name (Failed m), Printed (error_while_deleting m)]\<rparr>"
  | (locked_removed) m us where "files s name \<noteq> None" "unlink_script s = Locked m # us"
      "finally_block hs (Some name) s =
         s\<lparr>files := (files s)(name := None), unlink_script := tl us,
           trace := trace s @ [Unlink name (Locked m), Slept 100, Unlink name Removed]\<rparr>"
  | (locked_failed) m m' us where "files s name \<noteq> None"
      "unlink_script s = Locked m # Failed m' # us"
      "finally_block hs (Some name) s =
         s\<lparr>unlink_script := us,
           trace := trace s @ [Unlink name (Locked m), Slept 100, Unlink name (Failed m'),
             Printed (error_while_deleting m')]\<rparr>"
  | (locked2_removed) m m' us where "files s name \<noteq> None"
      "unlink_script s = Locked m # Locked m' # us"
      "finally_block hs (Some name) s =
         s\<lparr>files := (files s)(name := None), unlink_script := tl us,
           trace := trace s @ [Unlink name (Locked m), Slept 100, Unlink name (Locked m'),
             Slept 100, Unlink name Removed]\<rparr>"
  | (locked2_failed) m m' m'' us where "files s name \<noteq> None"
      "unlink_script s = Locked m # Locked m' # Failed m'' # us"
      "finally_block hs (Some name) s =
         s\<lparr>unlink_script := us,
           trace := trace s @ [Unlink name (Locked m), Slept 100, Unlink name (Locked m'),
             Slept 100, Unlink name (Failed m''), Printed (error_while_deleting m'')]\<rparr>"
  | (locked3) m m' m'' us where "files s name \<noteq> None"
      "unlink_script s = Locked m # Locked m' # Locked m'' # us"
      "finally_block hs (Some name) s =
         s\<lparr>unlink_script := us,
           trace := trace s @ [Unlink name (Locked m), Slept 100, Unlink name (Locked m'),
             Slept 100, Unlink name (Locked m''), Printed (could_not_delete name)]\<rparr>"
proof (cases "files s name = None")
  case True
  then have "finally_block hs (Some name) s = s"
    by (simp add: finally_block_unfold delete_loop_absent del: delete_loop.simps(2))
  with True show ?thesis by (rule absent)
next
  case ex: False
  let ?fb = "finally_block hs (Some name) s"
  show ?thesis
  proof (cases "unlink_script s = [] \<or> hd (unlink_script s) = Removed")
    case True
    with ex show ?thesis
      by (intro removed) (simp_all add: finally_block_unfold delete_loop_removed del: delete_loop.simps(2))
  next
    case False
    then obtain o1 us1 where s1: "unlink_script s = o1 # us1" "o1 \<noteq> Removed"
      by (cases "unlink_script s") auto
    show ?thesis
    proof (cases o1)
      case Removed
      with s1 show ?thesis by simp
    next
      case (Failed m)
      with ex s1 show ?thesis
        by (intro failed [of m us1])
          (simp_all add: finally_block_unfold delete_loop_failed print_def emit_def del: delete_loop.simps(2))
    next
      case (Locked m)
      define t1 where "t1 = s\<lparr>unlink_script := us1,
         trace := trace s @ [Unlink name (Locked m), Slept 100]\<rparr>"
      have l1: "delete_loop name [0, 1, 2] s = delete_loop name [1, 2] t1"
        using ex s1 Locked by (simp add: delete_loop_locked max_retries_def t1_def del: delete_loop.simps(2))
      have ex1: "files t1 name \<noteq> None" and sc1: "unlink_script t1 = us1"
        using ex by (simp_all add: t1_def del: delete_loop.simps(2))
      show ?thesis
      proof (cases "us1 = [] \<or> hd us1 = Removed")
        case True
        with ex s1 Locked l1 ex1 sc1 show ?thesis
          by (intro locked_removed [of m us1])
            (simp_all add: finally_block_unfold delete_loop_removed t1_def del: delete_loop.simps(2))
      next
        case False
        then obtain o2 us2 where s2: "us1 = o2 # us2" "o2 \<noteq> Removed"
          by (cases us1) auto
        show ?thesis
        proof (cases o2)
          case Removed
          with s2 show ?thesis by simp
        next
          case (Failed m')
          with ex s1 s2 Locked l1 ex1 sc1 show ?thesis
            by (intro locked_failed [of m m' us2])
              (simp_all add: finally_block_unfold delete_loop_failed t1_def
                print_def emit_def del: delete_loop.simps(2))
        next
          case L2: (Locked m')
          define t2 where "t2 = t1\<lparr>unlink_script := us2,
            trace := trace t1 @ [Unlink name (Locked m'), Slept 100]\<rparr>"
          have l2: "delete_loop name [1, 2] t1 = delete_loop name [2] t2"
            using ex1 sc1 s2 L2 by (simp add: delete_loop_locked max_retries_def t2_def del: delete_loop.simps(2))
          have ex2: "files t2 name \<noteq> None" and sc2: "unlink_script t2 = us2"
            using ex1 by (simp_all add: t2_def del: delete_loop.simps(2))
          show ?thesis
          proof (cases "us2 = [] \<or> hd us2 = Removed")
            case True
            with ex s1 s2 Locked L2 l1 l2 ex2 sc2 show ?thesis
              by (intro locked2_removed [of m m' us2])
                (simp_all add: finally_block_unfold delete_loop_removed
                  t1_def t2_def del: delete_loop.simps(2))
          next
            case False
            then obtain o3 us3 where s3: "us2 = o3 # us3" "o3 \<noteq> Removed"
              by (cases us2) auto
            show ?thesis
            proof (cases o3)
              case Removed
              with s3 show ?thesis by simp
            next
              case (Failed m'')
              with ex s1 s2 s3 Locked L2 l1 l2 ex2 sc2 show ?thesis
                by (intro locked2_failed [of m m' m'' us3])
                  (simp_all add: finally_block_unfold delete_loop_failed
                    t1_def t2_def print_def emit_def del: delete_loop.simps(2))
            next
              case L3: (Locked m'')
              with ex s1 s2 s3 Locked L2 l1 l2 ex2 sc2 show ?thesis
                by (intro locked3 [of m m' m'' us3])
                  (simp_all add: finally_block_unfold delete_loop_locked
                    max_retries_def t1_def t2_def del: delete_loop.simps(2))
            qed
          qed
        qed
      qed
    qed
  qed
qed

section \<open>The handler, phase by phase\<close>




lemma finally_block_effect:
  obtains evs where
    "trace (finally_block hs (Some name) s) = trace s @ evs"
    "created evs = []" "parser_calls evs = []"
    "parser_map (finally_block hs (Some name) s) = parser_map s"
    "files (finally_block hs (Some name) s) name = None \<or> deletion_warned name evs"
    "files s name \<noteq> None \<Longrightarrow> unlink_results evs \<noteq> []"
    "files s name \<noteq> None \<Longrightarrow> unlink_script s = [] \<Longrightarrow>
       files (finally_block hs (Some name) s) name = None"
proof (cases rule: finally_block_cases [of s name hs])
  case absent
  then show ?thesis by (intro that [of "[]"]) simp_all
next
  case removed
  then show ?thesis by (intro that [of "[Unlink name Removed]"]) simp_all
next
  case (failed m us)
  then show ?thesis
    by (intro that [of "[Unlink name (Failed m), Printed (error_while_deleting m)]"])
      (simp_all add: deletion_warned_def error_while_deleting_def)
next
  case (locked_removed m us)
  then show ?thesis
    by (intro that [of "[Unlink name (Locked m), Slept 100, Unlink name Removed]"]) simp_all
next
  case (locked_failed m m' us)
  then show ?thesis
    by (intro that [of "[Unlink name (Locked m), Slept 100, Unlink name (Failed m'),
             Printed (error_while_deleting m')]"])
      (simp_all add: deletion_warned_def error_while_deleting_def)
next
  case (locked2_removed m m' us)
  then show ?thesis
    by (intro that [of "[Unlink name (Locked m), Slept 100, Unlink name (Locked m'),
             Slept 100, Unlink name Removed]"]) simp_all
next
  case (locked2_failed m m' m'' us)
  then show ?thesis
    by (intro that [of "[Unlink name (Locked m), Slept 100, Unlink name (Locked m'),
             Slept 100, Unlink name (Failed m''), Printed (error_while_deleting m'')]"])
      (simp_all add: deletion_warned_def error_while_deleting_def)
next
  case (locked3 m m' m'' us)
  then show ?thesis
    by (intro that [of "[Unlink name (Locked m), Slept 100, Unlink name (Locked m'),
             Slept 100, Unlink name (Locked m''), Printed (could_not_delete name)]"])
      (simp_all add: deletion_warned_def)
qed

lemma NamedTemporaryFile_Inr:
  assumes "NamedTemporaryFile f c suffix s = (Inr name, s1)"
  shows "files s name = None"
    and "s1 = s\<lparr>files := (files s)(name \<mapsto> []), trace := trace s @ [Created name]\<rparr>"
  using assms
  by (auto simp: NamedTemporaryFile_def emit_def find_Some_iff split: option.splits)

lemma NamedTemporaryFile_Inl:
  "NamedTemporaryFile f c suffix s = (Inl e, s1) \<Longrightarrow> s1 = s"
  by (auto simp: NamedTemporaryFile_def split: option.splits)

lemma staged_body_effect:
  assumes "staged_body env up suffix name s = (r, s2)"
  obtains evs where "trace s2 = trace s @ evs" "created evs = []" "unlink_results evs = []"
    "printed evs = []"
    "parser_map s2 = parser_map s" "unlink_script s2 = unlink_script s"
    "files s name \<noteq> None \<Longrightarrow> files s2 name \<noteq> None"
proof (cases "trace s2 = trace s")
  case True
  with assms show ?thesis
    by (intro that [of "[]"])
      (auto simp: staged_body_def emit_def Let_def split: sum.splits option.splits)
next
  case False
  with assms obtain cls where "trace s2 = trace s @ [ParserCalled cls name]"
    by (auto simp: staged_body_def emit_def Let_def split: sum.splits option.splits)
  with assms show ?thesis
    by (intro that [of "[ParserCalled cls name]"])
      (auto simp: staged_body_def emit_def Let_def split: sum.splits option.splits)
qed

lemma parse_document_staged:
  assumes "map_of (parser_map s) (derive_suffix (filename up)) \<noteq> None"
      and "NamedTemporaryFile (tmp_fault env) (tmp_candidates env)
             (derive_suffix (filename up)) s = (Inr name, s1)"
      and "staged_body env up (derive_suffix (filename up)) name s1 = (r, s2)"
  shows "parse_document env up s =
    (except_Exception (http_exception_str env) r,
     finally_block (http_exception_str env) (Some name) s2)"
  using assms by (auto simp: parse_document_def parse_document_try_def Let_def)

lemma parse_document_unsupported:
  assumes "map_of (parser_map s) (derive_suffix (filename up)) = None"
  shows "parse_document env up s =
    (Inl (HTTPException 500 (''Error processing file: '' @
       http_exception_str env 400
         (unsupported_detail (derive_suffix (filename up)) (keys (parser_map s))))), s)"
  using assms
  by (simp add: parse_document_def parse_document_try_def Let_def except_Exception_def)

section \<open>The example runs\<close>

lemmas suffix_defs = derive_suffix_def path_suffix_def path_name_def path_parts_def
  lower_def lower_char_def Let_def

lemmas run_defs = parse_document_def parse_document_try_def except_Exception_def
  NamedTemporaryFile_def staged_body_def finally_block_unfold os_path_exists_def os_unlink_def
  emit_def time_sleep_def print_def max_retries_def unsupported_detail_def keys_def
  could_not_delete_def error_while_deleting_def

lemmas example_defs = echo_env_def failing_env_def no_tmp_env_def report_upload_def
  notes_upload_def readme_upload_def broken_upload_def refusing_state_def locked_state_def
  initial_state_def PARSER_MAP_def




lemma suffix_report: "derive_suffix (filename report_upload) = ''.pdf''"
  by (simp add: suffix_defs example_defs)

lemma suffix_notes: "derive_suffix (filename notes_upload) = ''.xyz''"
  by (simp add: suffix_defs example_defs)


section \<open>Further facts about the handler and the examples\<close>

lemma finally_block_locked_state:
  "finally_block hs (Some ''/tmp/tmpa.pdf'') locked_state =
     locked_state\<lparr>unlink_script := [],
       trace := [Unlink ''/tmp/tmpa.pdf'' (Locked ''in use''), Slept 100,
                 Unlink ''/tmp/tmpa.pdf'' (Locked ''in use''), Slept 100,
                 Unlink ''/tmp/tmpa.pdf'' (Locked ''in use''),
                 Printed (could_not_delete ''/tmp/tmpa.pdf'')]\<rparr>"
  by (simp add: finally_block_unfold locked_state_def refusing_state_def initial_state_def
      delete_loop_locked max_retries_def del: delete_loop.simps(2))



lemma staged_body_parsed:
  assumes "map_of (parser_map s1) suffix = Some cls"
    and "read_result up = Inr content"
    and "write_fault env = None" "flush_fault env = None" "close_fault env = None"
  shows "staged_body env up suffix name s1 =
    (case parser_call env cls ((files s1)(name \<mapsto> content)) name of
       Inl e \<Rightarrow> Inl e
     | Inr result \<Rightarrow> Inr (Parsed ''success'' result),
     s1\<lparr>files := (files s1)(name \<mapsto> content),
        trace := trace s1 @ [ParserCalled cls name]\<rparr>)"
  using assms by (simp add: staged_body_def emit_def Let_def split: sum.splits)

lemma parse_document_parsed:
  assumes reg: "map_of (parser_map s) (derive_suffix (filename up)) = Some cls"
    and alloc: "NamedTemporaryFile (tmp_fault env) (tmp_candidates env)
             (derive_suffix (filename up)) s = (Inr name, s1)"
    and staged: "read_result up = Inr content"
      "write_fault env = None" "flush_fault env = None" "close_fault env = None"
  obtains evs where
    "fst (parse_document env up s) =
       except_Exception (http_exception_str env)
         (case parser_call env cls ((files s1)(name \<mapsto> content)) name of
            Inl e \<Rightarrow> Inl e
          | Inr result \<Rightarrow> Inr (Parsed ''success'' result))"
    "new_events s (snd (parse_document env up s)) =
       Created name # ParserCalled cls name # evs"
    "created evs = []" "parser_calls evs = []" "unlink_results evs \<noteq> []"
    "files (snd (parse_document env up s)) name = None \<or> deletion_warned name evs"
    "unlink_script s = [] \<Longrightarrow> files (snd (parse_document env up s)) name = None"
proof -
  note s1 = NamedTemporaryFile_Inr [OF alloc]
  have reg1: "map_of (parser_map s1) (derive_suffix (filename up)) = Some cls"
    using reg s1(2) by simp
  define s2 where "s2 = s1\<lparr>files := (files s1)(name \<mapsto> content),
        trace := trace s1 @ [ParserCalled cls name]\<rparr>"
  define r where "r = (case parser_call env cls ((files s1)(name \<mapsto> content)) name of
       Inl e \<Rightarrow> Inl e
     | Inr result \<Rightarrow> Inr (Parsed ''success'' result))"
  have sb: "staged_body env up (derive_suffix (filename up)) name s1 = (r, s2)"
    using staged_body_parsed [OF reg1 staged] by (simp add: r_def s2_def)
  have pd: "parse_document env up s =
    (except_Exception (http_exception_str env) r,
     finally_block (http_exception_str env) (Some name) s2)"
    using reg by (intro parse_document_staged [OF _ alloc sb]) simp
  have there: "files s2 name \<noteq> None"
    by (simp add: s2_def)
  have tr2: "trace s2 = trace s @ [Created name, ParserCalled cls name]"
    using s1(2) by (simp add: s2_def)
  have sc2: "unlink_script s2 = unlink_script s"
    using s1(2) by (simp add: s2_def)
  obtain evs where evs:
    "trace (finally_block (http_exception_str env) (Some name) s2) = trace s2 @ evs"
    "created evs = []" "parser_calls evs = []"
    "files (finally_block (http_exception_str env) (Some name) s2) name = None
       \<or> deletion_warned name evs"
    "files s2 name \<noteq> None \<Longrightarrow> unlink_results evs \<noteq> []"
    "files s2 name \<noteq> None \<Longrightarrow> unlink_script s2 = [] \<Longrightarrow>
       files (finally_block (http_exception_str env) (Some name) s2) name = None"
    by (rule finally_block_effect [of "http_exception_str env" name s2]) blast
  show ?thesis
  proof (rule that [of evs])
    show "fst (parse_document env up s) = except_Exception (http_exception_str env)
         (case parser_call env cls ((files s1)(name \<mapsto> content)) name of
            Inl e \<Rightarrow> Inl e
          | Inr result \<Rightarrow> Inr (Parsed ''success'' result))"
      by (simp add: pd r_def)
    show "new_events s (snd (parse_document env up s)) =
       Created name # ParserCalled cls name # evs"
      using evs(1) tr2 by (simp add: pd new_events_def)
    show "created evs = []" "parser_calls evs = []"
      by (rule evs(2), rule evs(3))
    show "unlink_results evs \<noteq> []"
      using evs(5) there by simp
    show "files (snd (parse_document env up s)) name = None \<or> deletion_warned name evs"
      using evs(4) by (simp add: pd)
    show "files (snd (parse_document env up s)) name = None" if "unlink_script s = []"
      using evs(6) there sc2 that by (simp add: pd)
  qed
qed

lemma alloc_report:
  "NamedTemporaryFile (tmp_fault echo_env) (tmp_candidates echo_env)
     (derive_suffix (filename report_upload)) initial_state =
   (Inr ''/tmp/tmpa.pdf'',
    initial_state\<lparr>files := [''/tmp/tmpa.pdf'' \<mapsto> []],
      trace := [Created ''/tmp/tmpa.pdf'']\<rparr>)"
  by (simp add: suffix_report) (simp add: NamedTemporaryFile_def emit_def example_defs)


lemma registered_key:
  assumes "E \<in> set (keys PARSER_MAP)"
  shows "\<exists>x. E = CHR ''.'' # x \<and> x \<noteq> [] \<and> CHR ''.'' \<notin> set x \<and> CHR ''/'' \<notin> set x"
    and "lower E = E" and "lower (upper E) = E" and "map_of PARSER_MAP E \<noteq> None"
  using assms
  by (auto simp: keys_def PARSER_MAP_def lower_def upper_def lower_char_def upper_char_def)

lemma lower_stem:
  assumes "stem \<noteq> []" "CHR ''/'' \<notin> set stem"
  shows "lower stem \<noteq> []" "CHR ''/'' \<notin> set (lower stem)"
  using assms by (auto simp: lower_def) (metis lower_char_slash)

lemma lower_append: "lower (a @ b) = lower a @ lower b"
  by (simp add: lower_def)

lemma parse_document_registry: "parser_map (snd (parse_document env up s)) = parser_map s"
proof (cases "map_of (parser_map s) (derive_suffix (filename up)) = None")
  case True
  then show ?thesis by (simp add: parse_document_unsupported)
next
  case reg: False
  obtain a s1 where alloc: "NamedTemporaryFile (tmp_fault env) (tmp_candidates env)
             (derive_suffix (filename up)) s = (a, s1)"
    by (cases "NamedTemporaryFile (tmp_fault env) (tmp_candidates env)
             (derive_suffix (filename up)) s") blast
  show ?thesis
  proof (cases a)
    case (Inl e)
    with alloc have "s1 = s"
      by (simp add: NamedTemporaryFile_Inl)
    with alloc reg Inl show ?thesis
      by (auto simp: parse_document_def parse_document_try_def Let_def)
  next
    case (Inr name)
    note s1 = NamedTemporaryFile_Inr [OF alloc [unfolded Inr]]
    obtain r s2 where sb: "staged_body env up (derive_suffix (filename up)) name s1 = (r, s2)"
      by (cases "staged_body env up (derive_suffix (filename up)) name s1") blast
    obtain evs2 where "parser_map s2 = parser_map s1"
      by (rule staged_body_effect [OF sb]) blast
    moreover obtain evs where
      "parser_map (finally_block (http_exception_str env) (Some name) s2) = parser_map s2"
      by (rule finally_block_effect [of "http_exception_str env" name s2]) blast
    ultimately show ?thesis
      using parse_document_staged [OF reg alloc [unfolded Inr] sb] s1(2) by simp
  qed
qed

lemma serve_registry: "parser_map (snd (serve rq s)) = parser_map s"
  by (cases rq) (simp_all add: serve_def parse_document_registry get_supported_formats_def
      case_prod_beta)

lemma serve_all_registry: "parser_map (serve_all rqs s) = parser_map s"
  by (induction rqs arbitrary: s) (simp_all add: serve_registry)

section \<open>The properties of the service\<close>

text \<open>
  C1. The specification asks that an upload with an unregistered extension be answered
  with status 400 and the detail \<open>Unsupported file type: ...\<close>. The handler raises that
  \<open>HTTPException\<close> inside its own \<open>try\<close>, whose \<open>except Exception\<close> catches it
  and raises a 500 in its place: for the upload \<open>notes.xyz\<close> the answer is status 500,
  with the detail \<open>Error processing file: \<close> followed by \<open>str\<close> of the 400 exception.
\<close>

theorem unsupported_extension_answers_500:
  "respond (fst (parse_document (echo_env\<lparr>http_exception_str := hs\<rparr>) notes_upload
      initial_state)) =
   Response 500 (Detail (''Error processing file: '' @
     hs 400 ''Unsupported file type: .xyz. Supported types are: .pdf, .docx, .xlsx, .xls, .pptx, .ppt, .html, .json, .md, .txt''))"
  by (simp add: suffix_defs run_defs example_defs)




text \<open>
  C3. The deletion code makes at most three calls of \<open>os.unlink\<close>; it waits 100 ms
  between two consecutive calls and at no other time, so the waits add up to 100 ms times
  one less than the number of calls, at most 200 ms and so within the 300 ms of the
  specification; and every call that another call follows was refused with a
  \<open>PermissionError\<close>, so that any other failure ends the retrying at once.
\<close>

theorem deletion_policy:
  "length (unlink_results (new_events s (finally_block hs (Some name) s))) \<le> 3
   \<and> waited (new_events s (finally_block hs (Some name) s)) =
       100 * (length (unlink_results (new_events s (finally_block hs (Some name) s))) - 1)
   \<and> waited (new_events s (finally_block hs (Some name) s)) \<le> 300
   \<and> all_but_last_locked (unlink_results (new_events s (finally_block hs (Some name) s)))
   \<and> spaced (attempts_and_waits (new_events s (finally_block hs (Some name) s)))"
  by (cases rule: finally_block_cases [of s name hs]) (simp_all add: new_events_def)

theorem deletion_policy_witness:
  "length (unlink_results (new_events locked_state
      (finally_block (\<lambda>c d. d) (Some ''/tmp/tmpa.pdf'') locked_state))) = 3
   \<and> waited (new_events locked_state
      (finally_block (\<lambda>c d. d) (Some ''/tmp/tmpa.pdf'') locked_state)) = 200"
  using deletion_policy [of locked_state "\<lambda>c d. d" "''/tmp/tmpa.pdf''"]
  unfolding finally_block_locked_state
  by (simp add: new_events_def locked_state_def refusing_state_def initial_state_def)






text \<open>
  C6. For every key \<open>E\<close> of the registry and every spelling \<open>E'\<close> of it in other letter
  cases (the upper-cased one among them), a file name ending in \<open>E'\<close> and the same name
  ending in \<open>E\<close> give the same derived suffix, \<open>E\<close> itself, and so the same entry of the
  registry: the handler lower-cases the suffix before it looks it up, and every key is
  in lower case.
\<close>

theorem dispatch_case_insensitive:
  assumes "E \<in> set (keys PARSER_MAP)" and "lower E' = E"
    and "stem \<noteq> []" and "CHR ''/'' \<notin> set stem"
  shows "derive_suffix (stem @ E') = E
    \<and> derive_suffix (stem @ E) = E
    \<and> map_of PARSER_MAP (derive_suffix (stem @ E')) = map_of PARSER_MAP (derive_suffix (stem @ E))
    \<and> map_of PARSER_MAP (derive_suffix (stem @ E')) \<noteq> None
    \<and> lower (upper E) = E"
proof -
  obtain x where x: "E = CHR ''.'' # x" "x \<noteq> []" "CHR ''.'' \<notin> set x" "CHR ''/'' \<notin> set x"
    using registered_key(1) [OF assms(1)] by blast
  have suffix: "path_suffix (lower stem @ E) = E"
    unfolding x(1) using lower_stem [OF assms(3,4)] x(2-4) by (rule path_suffix_simple)
  have "derive_suffix (stem @ E') = E"
    using suffix assms(2) by (simp add: derive_suffix_lower lower_append)
  moreover have "derive_suffix (stem @ E) = E"
    using suffix registered_key(2) [OF assms(1)] by (simp add: derive_suffix_lower lower_append)
  ultimately show ?thesis
    using registered_key(3,4) [OF assms(1)] by simp
qed

theorem dispatch_case_insensitive_witness:
  "derive_suffix ''report.PDF'' = ''.pdf''
   \<and> derive_suffix ''report.pdf'' = ''.pdf''
   \<and> map_of PARSER_MAP (derive_suffix ''report.PDF'') = Some PdfParser"
proof -
  have k: "''.pdf'' \<in> set (keys PARSER_MAP)"
    by (simp add: keys_def PARSER_MAP_def)
  have l: "lower ''.PDF'' = ''.pdf''"
    by (simp add: lower_def lower_char_def)
  have s: "''report'' \<noteq> []" "CHR ''/'' \<notin> set ''report''"
    by simp_all
  from dispatch_case_insensitive [OF k l s] show ?thesis
    by (simp add: PARSER_MAP_def)
qed

text \<open>
  C7. For every upload whose lower-cased suffix is not a key of the registry, the handler
  leaves the state as it found it: no file is created, no event is recorded, the files on
  disk are the same. The extension check comes before the temporary file.
\<close>

theorem unsupported_creates_nothing:
  assumes "map_of (parser_map s) (derive_suffix (filename up)) = None"
  shows "snd (parse_document env up s) = s
    \<and> created (new_events s (snd (parse_document env up s))) = []
    \<and> files (snd (parse_document env up s)) = files s"
  using assms by (simp add: parse_document_unsupported new_events_def)

theorem unsupported_creates_nothing_witness:
  "map_of (parser_map initial_state) (derive_suffix (filename notes_upload)) = None
   \<and> snd (parse_document echo_env notes_upload initial_state) = initial_state
   \<and> created (new_events initial_state
        (snd (parse_document echo_env notes_upload initial_state))) = []"
proof -
  have h: "map_of (parser_map initial_state) (derive_suffix (filename notes_upload)) = None"
    by (simp add: suffix_notes) (simp add: initial_state_def PARSER_MAP_def)
  from unsupported_creates_nothing [OF h, of echo_env] h show ?thesis by blast
qed

text \<open>
  C8. For every upload whose suffix is registered, whose temporary file is created and
  written without a fault, and whose parser returns \<open>c\<close> for the path of that file, the
  handler answers with status 200 and the body \<open>{status: success, content: c}\<close>; the
  parser class of the suffix is called once, on that path.
\<close>

theorem success_response:
  assumes "map_of (parser_map s) (derive_suffix (filename up)) = Some cls"
    and "NamedTemporaryFile (tmp_fault env) (tmp_candidates env)
             (derive_suffix (filename up)) s = (Inr name, s1)"
    and "read_result up = Inr content"
    and "write_fault env = None" "flush_fault env = None" "close_fault env = None"
    and "parser_call env cls ((files s1)(name \<mapsto> content)) name = Inr c"
  shows "respond (fst (parse_document env up s)) = Response 200 (Parsed ''success'' c)
    \<and> parser_calls (new_events s (snd (parse_document env up s))) = [(cls, name)]"
proof -
  obtain evs where
    "fst (parse_document env up s) =
       except_Exception (http_exception_str env)
         (case parser_call env cls ((files s1)(name \<mapsto> content)) name of
            Inl e \<Rightarrow> Inl e
          | Inr result \<Rightarrow> Inr (Parsed ''success'' result))"
    "new_events s (snd (parse_document env up s)) =
       Created name # ParserCalled cls name # evs"
    "parser_calls evs = []"
    using parse_document_parsed [OF assms(1-6)] by blast
  with assms(7) show ?thesis
    by (simp add: except_Exception_def)
qed

theorem success_response_witness:
  "respond (fst (parse_document echo_env report_upload initial_state)) =
     Response 200 (Parsed ''success'' ''%PDF-1.7'')
   \<and> parser_calls (new_events initial_state
        (snd (parse_document echo_env report_upload initial_state))) =
     [(PdfParser, ''/tmp/tmpa.pdf'')]"
proof -
  have reg: "map_of (parser_map initial_state) (derive_suffix (filename report_upload)) =
      Some PdfParser"
    by (simp add: suffix_report) (simp add: example_defs)
  have rd: "read_result report_upload = Inr ''%PDF-1.7''"
    by (simp add: report_upload_def)
  have nf: "write_fault echo_env = None" "flush_fault echo_env = None"
    "close_fault echo_env = None"
    by (simp_all add: echo_env_def)
  have pc: "parser_call echo_env PdfParser
      ((files (initial_state\<lparr>files := [''/tmp/tmpa.pdf'' \<mapsto> []],
          trace := [Created ''/tmp/tmpa.pdf'']\<rparr>))(''/tmp/tmpa.pdf'' \<mapsto> ''%PDF-1.7''))
      ''/tmp/tmpa.pdf'' = Inr ''%PDF-1.7''"
    by (simp add: echo_env_def)
  show ?thesis
    by (rule success_response [OF reg alloc_report rd nf pc])
qed

text \<open>
  C9. After any sequence of requests from start-up the registry is the one the module
  defines, and \<open>GET /supported-formats\<close> answers with status 200 and the ten keys in the
  order of their definition, leaving the state as it is: every call gives the same list.
\<close>

theorem supported_formats_stable:
  "parser_map (serve_all rqs initial_state) = PARSER_MAP
   \<and> serve GetSupportedFormats (serve_all rqs initial_state) =
       (Response 200 (SupportedFormats
          [''.pdf'', ''.docx'', ''.xlsx'', ''.xls'', ''.pptx'', ''.ppt'', ''.html'',
           ''.json'', ''.md'', ''.txt'']),
        serve_all rqs initial_state)"
proof -
  have "parser_map (serve_all rqs initial_state) = PARSER_MAP"
    by (simp add: serve_all_registry initial_state_def)
  then show ?thesis
    by (simp add: serve_def get_supported_formats_def keys_def PARSER_MAP_def)
qed

theorem supported_formats_stable_witness:
  "fst (serve (GetSupportedFormats :: string request)
     (serve_all [PostParse echo_env report_upload, GetSupportedFormats,
                 PostParse failing_env broken_upload] initial_state)) =
   Response 200 (SupportedFormats
     [''.pdf'', ''.docx'', ''.xlsx'', ''.xls'', ''.pptx'', ''.ppt'', ''.html'',
      ''.json'', ''.md'', ''.txt''])"
proof -
  from supported_formats_stable
    [of "[PostParse echo_env report_upload, GetSupportedFormats,
          PostParse failing_env broken_upload]"]
  have "serve (GetSupportedFormats :: string request)
     (serve_all [PostParse echo_env report_upload, GetSupportedFormats,
                 PostParse failing_env broken_upload] initial_state) =
    (Response 200 (SupportedFormats
       [''.pdf'', ''.docx'', ''.xlsx'', ''.xls'', ''.pptx'', ''.ppt'', ''.html'',
        ''.json'', ''.md'', ''.txt'']),
     serve_all [PostParse echo_env report_upload, GetSupportedFormats,
                PostParse failing_env broken_upload] initial_state)"
    by (rule conjunct2)
  then show ?thesis
    by (simp only: fst_conv)
qed

text \<open>
  C10. For every file name without a dot the derived suffix is the empty string, the
  empty string is not a key of the registry, and the handler takes the branch of the
  extension check: it raises the \<open>HTTPException\<close> of the unsupported file type with the
  empty string as the extension, creates no file and calls no parser.
\<close>

theorem no_dot_is_unsupported:
  assumes "CHR ''.'' \<notin> set (filename up)" and "parser_map s = PARSER_MAP"
  shows "derive_suffix (filename up) = []
    \<and> map_of PARSER_MAP [] = None
    \<and> parse_document_try env up s =
        (Inl (HTTPException 400
           ''Unsupported file type: . Supported types are: .pdf, .docx, .xlsx, .xls, .pptx, .ppt, .html, .json, .md, .txt''), s)
    \<and> created (new_events s (snd (parse_document env up s))) = []
    \<and> parser_calls (new_events s (snd (parse_document env up s))) = []"
proof -
  have suffix: "derive_suffix (filename up) = []"
    using assms(1) by (simp add: derive_suffix_def path_suffix_no_dot lower_def)
  have absent: "map_of PARSER_MAP [] = None"
    by (simp add: PARSER_MAP_def)
  have raised: "parse_document_try env up s =
        (Inl (HTTPException 400
           ''Unsupported file type: . Supported types are: .pdf, .docx, .xlsx, .xls, .pptx, .ppt, .html, .json, .md, .txt''), s)"
    using assms(2) suffix absent
    by (simp add: parse_document_try_def) (simp add: unsupported_detail_def keys_def PARSER_MAP_def)
  then have "snd (parse_document env up s) = s"
    by (simp add: parse_document_def)
  with suffix absent raised show ?thesis
    by (simp add: new_events_def)
qed

theorem no_dot_is_unsupported_witness:
  "CHR ''.'' \<notin> set (filename readme_upload)
   \<and> derive_suffix (filename readme_upload) = []
   \<and> snd (parse_document echo_env readme_upload initial_state) = initial_state"
proof -
  have h1: "CHR ''.'' \<notin> set (filename readme_upload)"
    by (simp add: readme_upload_def)
  have h2: "parser_map initial_state = PARSER_MAP"
    by (simp add: initial_state_def)
  from no_dot_is_unsupported [OF h1 h2, of echo_env] h1 show ?thesis
    by (simp add: parse_document_def)
qed

end
